theory Spec2Isabelle
  imports Main
begin

section \<open>Data model of the logger (log.c)\<close>

text \<open>
  Pointers are compared with the null pointer and copied, never dereferenced by the
  logger itself, so a pointer is a tag: the null pointer, the standard error stream, or
  an address.
\<close>

datatype ptr = NULL | Stderr | Addr nat

text \<open>
  A value of type \<open>log_LogFn\<close> is a function pointer. The two callbacks that log.c
  registers by itself have a name of their own; callbacks of the caller are numbered.
\<close>

datatype log_LogFn = NULL_fn | file_callback_fn | msvc_debug_callback_fn | user_fn nat

text \<open>\<open>#define MAX_CALLBACKS 2\<close>\<close>

definition MAX_CALLBACKS :: nat where
  "MAX_CALLBACKS = 2"

text \<open>\<open>typedef struct { log_LogFn fn; void *udata; int level; } Callback;\<close>
  Levels are only copied and compared, so a C \<open>int\<close> is an \<open>int\<close>.\<close>

record Callback =
  cb_fn :: log_LogFn
  cb_udata :: ptr
  cb_level :: int

text \<open>The static struct \<open>L\<close>: the array of \<open>MAX_CALLBACKS\<close> slots is a list of
  that length.\<close>

record logger =
  L_udata :: ptr
  L_level :: int
  L_quiet :: bool
  L_callbacks :: "Callback list"

text \<open>Static storage is zero-initialised.\<close>

definition empty_slot :: Callback where
  "empty_slot = \<lparr>cb_fn = NULL_fn, cb_udata = NULL, cb_level = 0\<rparr>"

definition L_init :: logger where
  "L_init = \<lparr>L_udata = NULL, L_level = 0, L_quiet = False,
              L_callbacks = replicate MAX_CALLBACKS empty_slot\<rparr>"

text \<open>The broken-down time of \<open>struct tm\<close> (the fields the two formats read).\<close>

record tm =
  tm_sec :: int
  tm_min :: int
  tm_hour :: int
  tm_mday :: int
  tm_mon :: int
  tm_year :: int

text \<open>The variadic arguments of a log call.\<close>

datatype arg = Int_arg int | Str_arg string

type_synonym va_list = "arg list"

text \<open>\<open>log_Event\<close>, with the fields log.c reads and writes; \<open>time\<close> is a pointer and
  starts as the null pointer (\<open>None\<close>).\<close>

record log_Event =
  ev_ap :: va_list
  ev_fmt :: string
  ev_file :: string
  ev_time :: "tm option"
  ev_udata :: ptr
  ev_line :: int
  ev_level :: int

section \<open>Setters and registration\<close>

definition log_set_level :: "int \<Rightarrow> logger \<Rightarrow> logger" where
  "log_set_level level L = L\<lparr>L_level := level\<rparr>"

definition log_set_quiet :: "bool \<Rightarrow> logger \<Rightarrow> logger" where
  "log_set_quiet enable L = L\<lparr>L_quiet := enable\<rparr>"

text \<open>
  The loop of \<open>log_add_callback\<close>, from index \<open>i\<close> on: the first slot whose \<open>fn\<close> is
  null receives the triple and the call returns 0; when the index reaches
  \<open>MAX_CALLBACKS\<close> the call returns -1.
\<close>

function add_callback_from :: "nat \<Rightarrow> log_LogFn \<Rightarrow> ptr \<Rightarrow> int \<Rightarrow> logger \<Rightarrow> int \<times> logger" where
  "add_callback_from i fn udata level L =
     (if i < MAX_CALLBACKS then
        (if cb_fn (L_callbacks L ! i) = NULL_fn then
           (0, L\<lparr>L_callbacks := (L_callbacks L)
                   [i := \<lparr>cb_fn = fn, cb_udata = udata, cb_level = level\<rparr>]\<rparr>)
         else add_callback_from (i + 1) fn udata level L)
      else (- 1, L))"
  by pat_completeness auto
termination
  by (relation "measure (\<lambda>(i, fn, udata, level, L). MAX_CALLBACKS - i)") auto

declare add_callback_from.simps [simp del]

definition log_add_callback :: "log_LogFn \<Rightarrow> ptr \<Rightarrow> int \<Rightarrow> logger \<Rightarrow> int \<times> logger" where
  "log_add_callback fn udata level L = add_callback_from 0 fn udata level L"

definition log_add_fp :: "ptr \<Rightarrow> int \<Rightarrow> logger \<Rightarrow> int \<times> logger" where
  "log_add_fp file level L = log_add_callback file_callback_fn file level L"

text \<open>\<open>log_init\<close>: the flag says whether \<open>_MSC_VER\<close> is defined.\<close>

definition log_init :: "bool \<Rightarrow> logger \<Rightarrow> int \<times> logger" where
  "log_init msc_ver L =
     (if msc_ver then log_add_callback msvc_debug_callback_fn NULL (L_level L) L
      else (0, L))"

section \<open>Dispatch of a log call\<close>

text \<open>
  A log call is observed through the callbacks it runs, in order: the console sink
  \<open>stdout_callback\<close>, called directly, and the registered callbacks, called through the
  function pointer of their slot. The slot index is recorded with the call. A callback
  is taken to leave the event and the logger state as they are.
\<close>

datatype call = Stdout_call log_Event | Callback_call nat log_LogFn log_Event

text \<open>\<open>init_event\<close>: \<open>now\<close> is what \<open>localtime(time(NULL))\<close> yields, read only when the
  event has no time yet; \<open>localtime\<close> is taken to succeed.\<close>

definition init_event :: "tm \<Rightarrow> log_Event \<Rightarrow> ptr \<Rightarrow> log_Event" where
  "init_event now ev udata =
     (if ev_time ev = None then ev\<lparr>ev_time := Some now\<rparr> else ev)\<lparr>ev_udata := udata\<rparr>"

function callbacks_from :: "nat \<Rightarrow> tm \<Rightarrow> int \<Rightarrow> log_Event \<Rightarrow> logger \<Rightarrow> call list" where
  "callbacks_from i now level ev L =
     (if i < MAX_CALLBACKS \<and> cb_fn (L_callbacks L ! i) \<noteq> NULL_fn then
        (let cb = L_callbacks L ! i in
         if level \<ge> cb_level cb then
           (let ev' = init_event now ev (cb_udata cb) in
            Callback_call i (cb_fn cb) ev' # callbacks_from (i + 1) now level ev' L)
         else callbacks_from (i + 1) now level ev L)
      else [])"
  by pat_completeness auto
termination
  by (relation "measure (\<lambda>(i, now, level, ev, L). MAX_CALLBACKS - i)") auto

declare callbacks_from.simps [simp del]

text \<open>\<open>log_log\<close>: \<open>ap\<close> stands for the variadic arguments of the call. \<open>va_start\<close> before
  each callback makes \<open>ev.ap\<close> these arguments again, so the event carries them from the
  start. The logger state is only read.\<close>

definition log_log :: "tm \<Rightarrow> int \<Rightarrow> string \<Rightarrow> int \<Rightarrow> string \<Rightarrow> va_list \<Rightarrow> logger \<Rightarrow> call list" where
  "log_log now level file line fmt ap L =
     (let ev = \<lparr>ev_ap = ap, ev_fmt = fmt, ev_file = file, ev_time = None,
                ev_udata = NULL, ev_line = line, ev_level = level\<rparr> in
      if \<not> L_quiet L \<and> level \<ge> L_level L then
        (let ev1 = init_event now ev Stderr in
         Stdout_call ev1 # callbacks_from 0 now level ev1 L)
      else callbacks_from 0 now level ev L)"

section \<open>Reading a static table\<close>

text \<open>
  The static tables of strings are indexed with an \<open>int\<close> and no bounds check. A read
  outside the table is undefined behaviour: the value \<open>None\<close> here.
\<close>

definition table_at :: "'a list \<Rightarrow> int \<Rightarrow> 'a option" where
  "table_at tbl i = (if 0 \<le> i \<and> nat i < length tbl then Some (tbl ! nat i) else None)"

section \<open>The error-code table (errorcodes.c)\<close>

definition error_code_strings :: "string list" where
  "error_code_strings =
     [''CU_SUCCESS'', ''CU_FAILURE'', ''CU_LOG_FILE_ERROR'', ''CU_FILE_CLOSE_ERROR'']"

definition ErrorCodeToString :: "int \<Rightarrow> string option" where
  "ErrorCodeToString error_code = table_at error_code_strings error_code"

section \<open>The interface as a state machine\<close>

text \<open>
  One call of the interface. \<open>exec\<close> gives what the call returns (\<open>None\<close> for a
  \<open>void\<close> function), the logger state after it and the callbacks it ran.
\<close>

datatype op =
    Set_level int
  | Set_quiet bool
  | Add_callback log_LogFn ptr int
  | Add_fp ptr int
  | Init
  | Log tm int string int string va_list

fun exec :: "bool \<Rightarrow> op \<Rightarrow> logger \<Rightarrow> int option \<times> logger \<times> call list" where
  "exec msc_ver (Set_level level) L = (None, log_set_level level L, [])"
| "exec msc_ver (Set_quiet enable) L = (None, log_set_quiet enable L, [])"
| "exec msc_ver (Add_callback fn udata level) L =
     (case log_add_callback fn udata level L of (r, L') \<Rightarrow> (Some r, L', []))"
| "exec msc_ver (Add_fp file level) L =
     (case log_add_fp file level L of (r, L') \<Rightarrow> (Some r, L', []))"
| "exec msc_ver Init L =
     (case log_init msc_ver L of (r, L') \<Rightarrow> (Some r, L', []))"
| "exec msc_ver (Log now level file line fmt ap) L =
     (None, L, log_log now level file line fmt ap L)"

definition result_of :: "int option \<times> logger \<times> call list \<Rightarrow> int option" where
  "result_of x = fst x"

definition state_of :: "int option \<times> logger \<times> call list \<Rightarrow> logger" where
  "state_of x = fst (snd x)"

inductive reachable :: "bool \<Rightarrow> logger \<Rightarrow> bool" for msc_ver :: bool where
  start: "reachable msc_ver L_init"
| step: "reachable msc_ver L \<Longrightarrow> reachable msc_ver (state_of (exec msc_ver op L))"

text \<open>A slot is occupied when its function pointer is not null: this is the test of
  both loops. The registered callbacks are the occupied slots, in slot order.\<close>

definition occupied :: "logger \<Rightarrow> nat \<Rightarrow> bool" where
  "occupied L i = (cb_fn (L_callbacks L ! i) \<noteq> NULL_fn)"

definition registered :: "logger \<Rightarrow> Callback list" where
  "registered L = filter (\<lambda>cb. cb_fn cb \<noteq> NULL_fn) (L_callbacks L)"

text \<open>What a log call ran: the console sink, and the callback of slot \<open>i\<close>.\<close>

fun is_stdout_call :: "call \<Rightarrow> bool" where
  "is_stdout_call (Stdout_call ev) = True"
| "is_stdout_call (Callback_call i fn ev) = False"

fun is_call_of_slot :: "nat \<Rightarrow> call \<Rightarrow> bool" where
  "is_call_of_slot i (Stdout_call ev) = False"
| "is_call_of_slot i (Callback_call j fn ev) = (i = j)"


text \<open>The event a callback receives from a log call: the arguments of the call, the
  time read by \<open>init_event\<close> and the user data of the sink.\<close>

definition event_for :: "tm \<Rightarrow> int \<Rightarrow> string \<Rightarrow> int \<Rightarrow> string \<Rightarrow> va_list \<Rightarrow> ptr \<Rightarrow> log_Event" where
  "event_for now level file line fmt ap udata =
     \<lparr>ev_ap = ap, ev_fmt = fmt, ev_file = file, ev_time = Some now,
      ev_udata = udata, ev_line = line, ev_level = level\<rparr>"

definition slot_call :: "tm \<Rightarrow> int \<Rightarrow> string \<Rightarrow> int \<Rightarrow> string \<Rightarrow> va_list \<Rightarrow> logger \<Rightarrow> nat \<Rightarrow> call" where
  "slot_call now level file line fmt ap L i =
     Callback_call i (cb_fn (L_callbacks L ! i))
       (event_for now level file line fmt ap (cb_udata (L_callbacks L ! i)))"

text \<open>Slot \<open>i\<close> holds a callback whose threshold the level reaches.\<close>

definition slot_fires :: "logger \<Rightarrow> int \<Rightarrow> nat \<Rightarrow> bool" where
  "slot_fires L level i = (occupied L i \<and> cb_level (L_callbacks L ! i) \<le> level)"

definition is_callback_call :: "call \<Rightarrow> bool" where
  "is_callback_call c = (\<not> is_stdout_call c)"

text \<open>The calls that register a callback: \<open>log_init\<close> does only under \<open>_MSC_VER\<close>.\<close>

fun is_registration :: "bool \<Rightarrow> op \<Rightarrow> bool" where
  "is_registration msc_ver (Add_callback fn udata level) = True"
| "is_registration msc_ver (Add_fp file level) = True"
| "is_registration msc_ver Init = msc_ver"
| "is_registration msc_ver (Set_level level) = False"
| "is_registration msc_ver (Set_quiet enable) = False"
| "is_registration msc_ver (Log now level file line fmt ap) = False"

section \<open>The two built-in sinks\<close>

subsection \<open>Destinations\<close>

text \<open>
  What a destination has received: the bytes still held in a buffer of the stream and
  the bytes handed on. \<open>fprintf\<close> and \<open>vfprintf\<close> append to the buffer of a stdio
  stream; \<open>fflush\<close> hands the buffer on.
\<close>

record dest =
  pending :: string
  delivered :: string

type_synonym world = "ptr \<Rightarrow> dest"

definition fprintf :: "ptr \<Rightarrow> string \<Rightarrow> world \<Rightarrow> world" where
  "fprintf stream s w = w(stream := (w stream)\<lparr>pending := pending (w stream) @ s\<rparr>)"

definition fflush :: "ptr \<Rightarrow> world \<Rightarrow> world" where
  "fflush stream w =
     w(stream := \<lparr>pending = [], delivered = delivered (w stream) @ pending (w stream)\<rparr>)"

text \<open>
  Modelled from the spec: \<open>FileWriteStrf\<close> and \<open>FileWriteStrfv\<close> are declared in
  file.h, which is not among the sources at hand. The spec has the logger write to the
  registered files with no buffering beyond the platform stream's own: a write appends
  its text to the buffer of the stream of the file, and flushes nothing by itself.
\<close>

definition FileWriteStrf :: "ptr \<Rightarrow> string \<Rightarrow> world \<Rightarrow> world" where
  "FileWriteStrf file s w = w(file := (w file)\<lparr>pending := pending (w file) @ s\<rparr>)"

subsection \<open>Formatting\<close>

text \<open>The conversions of \<open>printf\<close> that the two sinks use: \<open>%d\<close>, and \<open>%-6s\<close> and
  \<open>%-5s\<close>, which pad on the right with spaces.\<close>

definition digit_char :: "nat \<Rightarrow> char" where
  "digit_char d = ''0123456789'' ! d"

fun dec_nat :: "nat \<Rightarrow> string" where
  "dec_nat n = (if n < 10 then [digit_char n] else dec_nat (n div 10) @ [digit_char (n mod 10)])"

declare dec_nat.simps [simp del]

definition dec_int :: "int \<Rightarrow> string" where
  "dec_int i = (if i < 0 then CHR ''-'' # dec_nat (nat (- i)) else dec_nat (nat i))"

definition ljust :: "nat \<Rightarrow> string \<Rightarrow> string" where
  "ljust width s = s @ replicate (width - length s) CHR '' ''"

text \<open>\<open>strftime\<close>, for the conversions of the two formats: a number of two digits for
  \<open>%H\<close>, \<open>%M\<close>, \<open>%S\<close>, \<open>%m\<close> and \<open>%d\<close>, the year for \<open>%Y\<close>. The result is the string
  left in the buffer once the byte at the returned length is set to zero: the empty
  string when the text and its terminator do not fit in \<open>maxsize\<close> bytes.\<close>

definition pad2 :: "int \<Rightarrow> string" where
  "pad2 i = (let s = dec_int i in replicate (2 - length s) CHR ''0'' @ s)"

definition strftime_conv :: "char \<Rightarrow> tm \<Rightarrow> string" where
  "strftime_conv c t =
     (if c = CHR ''H'' then pad2 (tm_hour t)
      else if c = CHR ''M'' then pad2 (tm_min t)
      else if c = CHR ''S'' then pad2 (tm_sec t)
      else if c = CHR ''Y'' then dec_int (1900 + tm_year t)
      else if c = CHR ''m'' then pad2 (tm_mon t + 1)
      else if c = CHR ''d'' then pad2 (tm_mday t)
      else [CHR ''%'', c])"

fun strftime_expand :: "string \<Rightarrow> tm \<Rightarrow> string" where
  "strftime_expand [] t = []"
| "strftime_expand [c] t = [c]"
| "strftime_expand (c # d # cs) t =
     (if c = CHR ''%'' then strftime_conv d t @ strftime_expand cs t
      else c # strftime_expand (d # cs) t)"

definition strftime :: "nat \<Rightarrow> string \<Rightarrow> tm \<Rightarrow> string" where
  "strftime maxsize fmt t =
     (let s = strftime_expand fmt t in if length s < maxsize then s else [])"

definition level_strings :: "string list" where
  "level_strings = [''TRACE'', ''DEBUG'', ''INFO'', ''WARN'', ''ERROR'', ''FATAL'']"

definition level_colors :: "string list" where
  "level_colors =
     [CHR 0x1B # ''[94m'', CHR 0x1B # ''[36m'', CHR 0x1B # ''[32m'',
      CHR 0x1B # ''[33m'', CHR 0x1B # ''[31m'', CHR 0x1B # ''[35m'']"

definition log_level_string :: "int \<Rightarrow> string option" where
  "log_level_string level = table_at level_strings level"

subsection \<open>The console sink and the file sink\<close>

text \<open>
  \<open>stdout_callback\<close>: \<open>use_color\<close> says whether \<open>LOG_USE_COLOR\<close> is defined, and
  \<open>vformat\<close> is the formatting of the caller's format string with its arguments, the
  work of \<open>vfprintf\<close>. A null \<open>time\<close> or a level outside the tables is undefined
  behaviour (\<open>None\<close>).
\<close>

definition stdout_callback ::
    "bool \<Rightarrow> (string \<Rightarrow> va_list \<Rightarrow> string) \<Rightarrow> log_Event \<Rightarrow> world \<Rightarrow> world option" where
  "stdout_callback use_color vformat ev w =
     (case ev_time ev of None \<Rightarrow> None | Some t \<Rightarrow>
      (case table_at level_strings (ev_level ev) of None \<Rightarrow> None | Some tag \<Rightarrow>
       (case (if use_color then table_at level_colors (ev_level ev) else Some [])
        of None \<Rightarrow> None | Some color \<Rightarrow>
        (let buf = strftime 16 ''%H:%M:%S'' t;
             head =
               (if use_color then
                  buf @ '' '' @ color @ ljust 5 tag @ CHR 0x1B # ''[0m '' @
                  CHR 0x1B # ''[90m'' @ ev_file ev @ '':'' @ dec_int (ev_line ev) @ '':'' @
                  CHR 0x1B # ''[0m ''
                else
                  buf @ '' '' @ ljust 6 tag @ '' '' @ ev_file ev @ '':'' @
                  dec_int (ev_line ev) @ '': '');
             w1 = fprintf (ev_udata ev) head w;
             w2 = fprintf (ev_udata ev) (vformat (ev_fmt ev) (ev_ap ev)) w1;
             w3 = fprintf (ev_udata ev) [CHR 0x0A] w2
         in Some (fflush (ev_udata ev) w3)))))"

definition file_callback ::
    "(string \<Rightarrow> va_list \<Rightarrow> string) \<Rightarrow> log_Event \<Rightarrow> world \<Rightarrow> world option" where
  "file_callback vformat ev w =
     (case ev_time ev of None \<Rightarrow> None | Some t \<Rightarrow>
      (case table_at level_strings (ev_level ev) of None \<Rightarrow> None | Some tag \<Rightarrow>
       (let buf = strftime 64 ''%Y-%m-%d %H:%M:%S'' t;
            w1 = FileWriteStrf (ev_udata ev)
                   (buf @ '' '' @ ljust 6 tag @ '' '' @ ev_file ev @ '':'' @
                    dec_int (ev_line ev) @ '': '') w;
            w2 = FileWriteStrf (ev_udata ev) (vformat (ev_fmt ev) (ev_ap ev)) w1
        in Some (FileWriteStrf (ev_udata ev) [CHR 0x0A] w2))))"

subsection \<open>The line formats, in the words of the interface description\<close>

definition two_digits :: "int \<Rightarrow> string" where
  "two_digits i = [digit_char (nat i div 10), digit_char (nat i mod 10)]"

definition four_digits :: "int \<Rightarrow> string" where
  "four_digits i =
     [digit_char (nat i div 1000), digit_char (nat i div 100 mod 10),
      digit_char (nat i div 10 mod 10), digit_char (nat i mod 10)]"

definition HH_MM_SS :: "tm \<Rightarrow> string" where
  "HH_MM_SS t = two_digits (tm_hour t) @ '':'' @ two_digits (tm_min t) @ '':'' @
     two_digits (tm_sec t)"

definition YYYY_MM_DD :: "tm \<Rightarrow> string" where
  "YYYY_MM_DD t = four_digits (1900 + tm_year t) @ ''-'' @ two_digits (tm_mon t + 1) @
     ''-'' @ two_digits (tm_mday t)"

text \<open>A broken-down time as \<open>localtime\<close> gives it, with a year of four digits.\<close>

definition valid_tm :: "tm \<Rightarrow> bool" where
  "valid_tm t =
     (0 \<le> tm_sec t \<and> tm_sec t \<le> 60 \<and> 0 \<le> tm_min t \<and> tm_min t \<le> 59 \<and>
      0 \<le> tm_hour t \<and> tm_hour t \<le> 23 \<and> 1 \<le> tm_mday t \<and> tm_mday t \<le> 31 \<and>
      0 \<le> tm_mon t \<and> tm_mon t \<le> 11 \<and>
      1000 \<le> 1900 + tm_year t \<and> 1900 + tm_year t \<le> 9999)"

text \<open>The three line formats: the console line, the console line under
  \<open>LOG_USE_COLOR\<close>, and the file line. \<open>tag\<close> is the level string, \<open>msg\<close> the formatted
  message.\<close>

definition console_line :: "tm \<Rightarrow> string \<Rightarrow> string \<Rightarrow> int \<Rightarrow> string \<Rightarrow> string" where
  "console_line t tag file line msg =
     HH_MM_SS t @ '' '' @ ljust 6 tag @ '' '' @ file @ '':'' @ dec_int line @ '': '' @
     msg @ [CHR 0x0A]"

definition console_line_color ::
    "tm \<Rightarrow> string \<Rightarrow> string \<Rightarrow> string \<Rightarrow> int \<Rightarrow> string \<Rightarrow> string" where
  "console_line_color t color tag file line msg =
     HH_MM_SS t @ '' '' @ color @ ljust 5 tag @ CHR 0x1B # ''[0m '' @
     CHR 0x1B # ''[90m'' @ file @ '':'' @ dec_int line @ '':'' @ CHR 0x1B # ''[0m '' @
     msg @ [CHR 0x0A]"

definition file_line :: "tm \<Rightarrow> string \<Rightarrow> string \<Rightarrow> int \<Rightarrow> string \<Rightarrow> string" where
  "file_line t tag file line msg =
     YYYY_MM_DD t @ '' '' @ HH_MM_SS t @ '' '' @ ljust 6 tag @ '' '' @ file @ '':'' @
     dec_int line @ '': '' @ msg @ [CHR 0x0A]"

text \<open>A destination that has been handed \<open>s\<close> after all it held, with nothing left in
  its buffer.\<close>

definition flushed_with :: "ptr \<Rightarrow> string \<Rightarrow> world \<Rightarrow> world" where
  "flushed_with d s w =
     w(d := \<lparr>pending = [], delivered = delivered (w d) @ pending (w d) @ s\<rparr>)"

section \<open>Example inputs\<close>

text \<open>A logger with a callback of the caller (threshold 4) in slot 0 and a file sink
  (threshold 2) in slot 1; a logger with the first of them only; a time; a world with
  nothing written.\<close>

definition L_one :: logger where
  "L_one = state_of (exec False (Add_callback (user_fn 0) (Addr 7) 4) L_init)"

definition L_two :: logger where
  "L_two = state_of (exec False (Add_fp (Addr 1) 2) L_one)"

definition tm_example :: tm where
  "tm_example = \<lparr>tm_sec = 5, tm_min = 4, tm_hour = 13, tm_mday = 2, tm_mon = 10,
                  tm_year = 126\<rparr>"

definition w_empty :: world where
  "w_empty = (\<lambda>d. \<lparr>pending = [], delivered = []\<rparr>)"

section \<open>Properties\<close>

subsection \<open>The registration loop, slot by slot\<close>

lemma add_callback_from_end:
  "add_callback_from (Suc (Suc 0)) fn udata level L = (- 1, L)"
  by (subst add_callback_from.simps) (simp add: MAX_CALLBACKS_def)

lemma add_callback_from_last:
  "add_callback_from (Suc 0) fn udata level L =
      (if cb_fn (L_callbacks L ! 1) = NULL_fn then
        (0, L\<lparr>L_callbacks := (L_callbacks L)
                [1 := \<lparr>cb_fn = fn, cb_udata = udata, cb_level = level\<rparr>]\<rparr>)
      else (- 1, L))"
  by (subst add_callback_from.simps) (simp add: MAX_CALLBACKS_def add_callback_from_end)

lemma log_add_callback_cases:
  "log_add_callback fn udata level L =
     (if cb_fn (L_callbacks L ! 0) = NULL_fn then
        (0, L\<lparr>L_callbacks := (L_callbacks L)
                [0 := \<lparr>cb_fn = fn, cb_udata = udata, cb_level = level\<rparr>]\<rparr>)
      else if cb_fn (L_callbacks L ! 1) = NULL_fn then
        (0, L\<lparr>L_callbacks := (L_callbacks L)
                [1 := \<lparr>cb_fn = fn, cb_udata = udata, cb_level = level\<rparr>]\<rparr>)
      else (- 1, L))"
  unfolding log_add_callback_def
  by (subst add_callback_from.simps) (simp add: MAX_CALLBACKS_def add_callback_from_last)

subsection \<open>The example states\<close>

lemma L_init_slots: "L_callbacks L_init = [empty_slot, empty_slot]"
  by (simp add: L_init_def MAX_CALLBACKS_def numeral_2_eq_2)

lemma L_one_eq:
  "L_one = \<lparr>L_udata = NULL, L_level = 0, L_quiet = False,
     L_callbacks = [\<lparr>cb_fn = user_fn 0, cb_udata = Addr 7, cb_level = 4\<rparr>, empty_slot]\<rparr>"
  by (simp add: L_one_def state_of_def log_add_callback_cases L_init_slots empty_slot_def)
     (simp add: L_init_def MAX_CALLBACKS_def numeral_2_eq_2 empty_slot_def)

lemma L_two_eq:
  "L_two = \<lparr>L_udata = NULL, L_level = 0, L_quiet = False,
     L_callbacks = [\<lparr>cb_fn = user_fn 0, cb_udata = Addr 7, cb_level = 4\<rparr>,
                    \<lparr>cb_fn = file_callback_fn, cb_udata = Addr 1, cb_level = 2\<rparr>]\<rparr>"
  by (simp add: L_two_def state_of_def log_add_fp_def log_add_callback_cases L_one_eq
      empty_slot_def)

subsection \<open>The dispatch loop\<close>

lemma callbacks_from_stop:
  "\<not> i < MAX_CALLBACKS \<or> cb_fn (L_callbacks L ! i) = NULL_fn \<Longrightarrow>
   callbacks_from i now level ev L = []"
  by (subst callbacks_from.simps) auto

lemma callbacks_from_call:
  "i < MAX_CALLBACKS \<Longrightarrow> cb_fn (L_callbacks L ! i) \<noteq> NULL_fn \<Longrightarrow>
   cb_level (L_callbacks L ! i) \<le> level \<Longrightarrow>
   callbacks_from i now level ev L =
     Callback_call i (cb_fn (L_callbacks L ! i)) (init_event now ev (cb_udata (L_callbacks L ! i)))
       # callbacks_from (i + 1) now level (init_event now ev (cb_udata (L_callbacks L ! i))) L"
  by (subst callbacks_from.simps) (simp add: Let_def)

lemma callbacks_from_skip:
  "i < MAX_CALLBACKS \<Longrightarrow> cb_fn (L_callbacks L ! i) \<noteq> NULL_fn \<Longrightarrow>
   \<not> cb_level (L_callbacks L ! i) \<le> level \<Longrightarrow>
   callbacks_from i now level ev L = callbacks_from (i + 1) now level ev L"
  by (subst callbacks_from.simps) (simp add: Let_def)

lemma callbacks_from_no_stdout:
  "filter is_stdout_call (callbacks_from i now level ev L) = []"
proof (induction i now level ev L rule: callbacks_from.induct)
  case (1 i now level ev L)
  show ?case
  proof (cases "i < MAX_CALLBACKS \<and> cb_fn (L_callbacks L ! i) \<noteq> NULL_fn")
    case False
    then show ?thesis by (simp add: callbacks_from_stop)
  next
    case True
    show ?thesis
    proof (cases "cb_level (L_callbacks L ! i) \<le> level")
      case met: True
      show ?thesis
        using True met "1.IH"(1) [OF True refl met refl]
        by (simp add: callbacks_from_call)
    next
      case unmet: False
      show ?thesis
        using True unmet "1.IH"(2) [OF True refl unmet]
        by (simp add: callbacks_from_skip)
    qed
  qed
qed

lemma init_event_twice:
  "ev_time ev = None \<Longrightarrow> init_event now (init_event now ev u) v = init_event now ev v"
  by (simp add: init_event_def)

lemma callbacks_from_init_event:
  "ev_time ev = None \<Longrightarrow>
   callbacks_from i now level (init_event now ev u) L = callbacks_from i now level ev L"
proof (induction i now level ev L rule: callbacks_from.induct)
  case (1 i now level ev L)
  show ?case
  proof (cases "i < MAX_CALLBACKS \<and> cb_fn (L_callbacks L ! i) \<noteq> NULL_fn")
    case False
    then show ?thesis by (simp add: callbacks_from_stop)
  next
    case True
    show ?thesis
    proof (cases "cb_level (L_callbacks L ! i) \<le> level")
      case met: True
      show ?thesis
        using True met "1.prems" by (simp add: callbacks_from_call init_event_twice)
    next
      case unmet: False
      show ?thesis
        using True unmet "1.IH"(2) [OF True refl unmet "1.prems"]
        by (simp add: callbacks_from_skip)
    qed
  qed
qed


lemma init_event_fresh:
  "init_event now \<lparr>ev_ap = ap, ev_fmt = fmt, ev_file = file, ev_time = None,
                ev_udata = u0, ev_line = line, ev_level = level\<rparr> u =
   event_for now level file line fmt ap u"
  by (simp add: init_event_def event_for_def)

lemma log_log_split:
  "log_log now level file line fmt ap L =
     (if \<not> L_quiet L \<and> L_level L \<le> level
      then [Stdout_call (event_for now level file line fmt ap Stderr)] else []) @
     callbacks_from 0 now level
       \<lparr>ev_ap = ap, ev_fmt = fmt, ev_file = file, ev_time = None,
        ev_udata = NULL, ev_line = line, ev_level = level\<rparr> L"
proof -
  let ?ev = "\<lparr>ev_ap = ap, ev_fmt = fmt, ev_file = file, ev_time = None,
        ev_udata = NULL, ev_line = line, ev_level = level\<rparr>"
  have "callbacks_from 0 now level (init_event now ?ev Stderr) L =
        callbacks_from 0 now level ?ev L"
    by (rule callbacks_from_init_event) simp
  moreover have "init_event now ?ev Stderr = event_for now level file line fmt ap Stderr"
    by (rule init_event_fresh)
  ultimately show ?thesis
    by (simp add: log_log_def Let_def)
qed

lemma callbacks_from_last:
  "callbacks_from (Suc 0) now level ev L =
     (if slot_fires L level (Suc 0)
      then [Callback_call (Suc 0) (cb_fn (L_callbacks L ! Suc 0))
              (init_event now ev (cb_udata (L_callbacks L ! Suc 0)))]
      else [])"
proof -
  have end_of_array: "callbacks_from (Suc (Suc 0)) now level e L = []" for e
    by (rule callbacks_from_stop) (simp add: MAX_CALLBACKS_def)
  show ?thesis
  proof (cases "cb_fn (L_callbacks L ! Suc 0) = NULL_fn")
    case True
    then show ?thesis by (simp add: callbacks_from_stop slot_fires_def occupied_def)
  next
    case False
    then show ?thesis
      by (cases "cb_level (L_callbacks L ! Suc 0) \<le> level")
         (simp_all add: callbacks_from_call callbacks_from_skip end_of_array
            slot_fires_def occupied_def MAX_CALLBACKS_def)
  qed
qed

lemma callbacks_from_0_prefix:
  assumes "occupied L (Suc 0) \<longrightarrow> occupied L 0"
  shows "callbacks_from 0 now level
       \<lparr>ev_ap = ap, ev_fmt = fmt, ev_file = file, ev_time = None,
        ev_udata = NULL, ev_line = line, ev_level = level\<rparr> L =
     map (slot_call now level file line fmt ap L)
       (filter (slot_fires L level) [0..<MAX_CALLBACKS])"
proof -
  let ?ev = "\<lparr>ev_ap = ap, ev_fmt = fmt, ev_file = file, ev_time = None,
        ev_udata = NULL, ev_line = line, ev_level = level\<rparr>"
  have upt: "[0..<MAX_CALLBACKS] = [0, Suc 0]"
    by (simp add: MAX_CALLBACKS_def upt_rec)
  have ev: "init_event now ?ev u = event_for now level file line fmt ap u" for u
    by (rule init_event_fresh)
  have ev2: "init_event now (event_for now level file line fmt ap u) v =
      event_for now level file line fmt ap v"
    for u v
    by (simp add: init_event_def event_for_def)
  have m0: "0 < MAX_CALLBACKS"
    by (simp add: MAX_CALLBACKS_def)
  show ?thesis
  proof (cases "cb_fn (L_callbacks L ! 0) = NULL_fn")
    case True
    with assms have "\<not> occupied L 0" "\<not> occupied L (Suc 0)"
      by (auto simp: occupied_def)
    then show ?thesis
      using True by (simp add: callbacks_from_stop slot_fires_def upt)
  next
    case False
    show ?thesis
    proof (cases "cb_level (L_callbacks L ! 0) \<le> level")
      case True
      then show ?thesis
        using False
        by (simp add: callbacks_from_call callbacks_from_last slot_fires_def
            occupied_def slot_call_def ev ev2 m0 upt)
    next
      case unmet: False
      then show ?thesis
        using False
        by (simp add: callbacks_from_skip callbacks_from_last slot_fires_def
            occupied_def slot_call_def ev m0 upt)
    qed
  qed
qed

subsection \<open>Reachable states\<close>

lemma reachable_inv:
  "reachable m L \<Longrightarrow>
   length (L_callbacks L) = MAX_CALLBACKS \<and> (occupied L (Suc 0) \<longrightarrow> occupied L 0)"
proof (induction rule: reachable.induct)
  case start
  show ?case by (simp add: L_init_def MAX_CALLBACKS_def occupied_def empty_slot_def)
next
  case (step L op)
  then show ?case
    by (cases op)
       (auto simp: state_of_def log_set_level_def log_set_quiet_def log_add_fp_def
          log_init_def log_add_callback_cases occupied_def MAX_CALLBACKS_def)
qed


lemma two_slots:
  assumes "reachable m L"
  obtains a b where "L_callbacks L = [a, b]" "cb_fn b \<noteq> NULL_fn \<longrightarrow> cb_fn a \<noteq> NULL_fn"
proof -
  from reachable_inv [OF assms]
  have len: "length (L_callbacks L) = 2" and pre: "occupied L (Suc 0) \<longrightarrow> occupied L 0"
    by (simp_all add: MAX_CALLBACKS_def)
  from len obtain a b where ab: "L_callbacks L = [a, b]"
    by (cases "L_callbacks L"; cases "tl (L_callbacks L)") auto
  with pre have "cb_fn b \<noteq> NULL_fn \<longrightarrow> cb_fn a \<noteq> NULL_fn"
    by (simp add: occupied_def)
  with ab show thesis by (rule that)
qed

lemma log_log_calls:
  assumes "reachable m L"
  shows "log_log now level file line fmt ap L =
     (if \<not> L_quiet L \<and> L_level L \<le> level
      then [Stdout_call (event_for now level file line fmt ap Stderr)] else []) @
     map (slot_call now level file line fmt ap L)
       (filter (slot_fires L level) [0..<MAX_CALLBACKS])"
  using reachable_inv [OF assms] by (simp add: log_log_split callbacks_from_0_prefix)

subsection \<open>The console sink and the global level\<close>

lemma stdout_calls_of_log_log:
  "filter is_stdout_call (log_log now level file line fmt ap L) =
     (if \<not> L_quiet L \<and> L_level L \<le> level
      then [Stdout_call (event_for now level file line fmt ap Stderr)] else [])"
  by (simp add: log_log_split callbacks_from_no_stdout)

subsection \<open>The threshold of a callback\<close>

lemma slot_calls_of_log_log:
  assumes "reachable m L" "i < MAX_CALLBACKS" "occupied L i"
  shows "filter (is_call_of_slot i) (log_log now level file line fmt ap L) =
     (if cb_level (L_callbacks L ! i) \<le> level
      then [slot_call now level file line fmt ap L i] else [])"
proof -
  have upt: "[0..<MAX_CALLBACKS] = [0, Suc 0]"
    by (simp add: MAX_CALLBACKS_def upt_rec)
  from assms(2) have "i = 0 \<or> i = Suc 0"
    by (auto simp: MAX_CALLBACKS_def)
  then show ?thesis
    using assms(3)
    by (auto simp: log_log_calls [OF assms(1)] upt slot_fires_def slot_call_def)
qed

text \<open>
  Claim C2. In a reachable state, the callback of an occupied slot \<open>i\<close> runs in a log
  call exactly when the level of the call is at least the threshold of that slot, and
  then once, with the arguments of the call and its own user data. The calls of slot
  \<open>i\<close> are the same in any two reachable states that hold the same triple in slot \<open>i\<close>,
  whatever their global level, their quiet flag and the other slot.
\<close>

theorem callback_threshold_independent:
  assumes "reachable m L" "i < MAX_CALLBACKS" "occupied L i"
  shows "filter (is_call_of_slot i) (log_log now level file line fmt ap L) =
           (if cb_level (L_callbacks L ! i) \<le> level
            then [slot_call now level file line fmt ap L i] else []) \<and>
         (\<forall>L'. reachable m L' \<and> L_callbacks L' ! i = L_callbacks L ! i \<longrightarrow>
            filter (is_call_of_slot i) (log_log now level file line fmt ap L') =
            filter (is_call_of_slot i) (log_log now level file line fmt ap L))"
proof (intro conjI allI impI)
  show "filter (is_call_of_slot i) (log_log now level file line fmt ap L) =
           (if cb_level (L_callbacks L ! i) \<le> level
            then [slot_call now level file line fmt ap L i] else [])"
    using assms by (rule slot_calls_of_log_log)
next
  fix L'
  assume other: "reachable m L' \<and> L_callbacks L' ! i = L_callbacks L ! i"
  then have r: "reachable m L'" and same: "L_callbacks L' ! i = L_callbacks L ! i"
    by simp_all
  from same have occ: "occupied L' i"
    using assms(3) by (simp add: occupied_def)
  show "filter (is_call_of_slot i) (log_log now level file line fmt ap L') =
        filter (is_call_of_slot i) (log_log now level file line fmt ap L)"
    using same
    by (simp add: slot_calls_of_log_log [OF assms] slot_calls_of_log_log [OF r assms(2) occ]
          slot_call_def)
qed

theorem callback_threshold_independent_witness:
  "reachable False L_two \<and> Suc 0 < MAX_CALLBACKS \<and> occupied L_two (Suc 0) \<and>
   filter (is_call_of_slot (Suc 0)) (log_log tm_example 3 ''main.c'' 10 ''hello'' [] L_two) =
     [Callback_call (Suc 0) file_callback_fn
        (event_for tm_example 3 ''main.c'' 10 ''hello'' [] (Addr 1))] \<and>
   filter (is_call_of_slot (Suc 0)) (log_log tm_example 1 ''main.c'' 10 ''hello'' [] L_two) = [] \<and>
   filter (is_call_of_slot (Suc 0))
     (log_log tm_example 3 ''main.c'' 10 ''hello'' []
        (state_of (exec False (Set_quiet True) (state_of (exec False (Set_level 5) L_two))))) =
     [Callback_call (Suc 0) file_callback_fn
        (event_for tm_example 3 ''main.c'' 10 ''hello'' [] (Addr 1))]"
proof -
  have r: "reachable False L_two"
    unfolding L_two_def L_one_def by (intro reachable.step reachable.start)
  have i: "Suc 0 < MAX_CALLBACKS"
    by (simp add: MAX_CALLBACKS_def)
  have occ: "occupied L_two (Suc 0)"
    by (simp add: occupied_def L_two_eq)
  let ?L' = "state_of (exec False (Set_quiet True) (state_of (exec False (Set_level 5) L_two)))"
  have r': "reachable False ?L'"
    by (intro reachable.step r)
  have same: "L_callbacks ?L' ! Suc 0 = L_callbacks L_two ! Suc 0"
    by (simp add: state_of_def log_set_quiet_def log_set_level_def)
  note c = callback_threshold_independent [OF r i occ, of tm_example _ "''main.c''" 10 "''hello''" "[]"]
  from c [of 3] have a: "filter (is_call_of_slot (Suc 0)) (log_log tm_example 3 ''main.c'' 10 ''hello'' [] L_two) =
     [Callback_call (Suc 0) file_callback_fn
        (event_for tm_example 3 ''main.c'' 10 ''hello'' [] (Addr 1))]"
    by (simp add: L_two_eq slot_call_def)
  from c [of 1] have b: "filter (is_call_of_slot (Suc 0)) (log_log tm_example 1 ''main.c'' 10 ''hello'' [] L_two) = []"
    by (simp add: L_two_eq slot_call_def)
  from c [of 3] r' same have "filter (is_call_of_slot (Suc 0)) (log_log tm_example 3 ''main.c'' 10 ''hello'' [] ?L') =
     filter (is_call_of_slot (Suc 0)) (log_log tm_example 3 ''main.c'' 10 ''hello'' [] L_two)"
    by blast
  with a b r i occ show ?thesis by simp
qed

subsection \<open>Registration and its capacity\<close>

lemma registered_count:
  assumes "reachable m L"
  shows "length (registered L) =
     (if occupied L (Suc 0) then 2 else if occupied L 0 then 1 else 0)"
proof -
  from assms obtain a b where "L_callbacks L = [a, b]"
    "cb_fn b \<noteq> NULL_fn \<longrightarrow> cb_fn a \<noteq> NULL_fn"
    by (rule two_slots)
  then show ?thesis
    by (auto simp: registered_def occupied_def)
qed

lemma add_callback_free:
  assumes "reachable m L" "length (registered L) < MAX_CALLBACKS"
  shows "log_add_callback fn udata level L =
     (0, L\<lparr>L_callbacks := (L_callbacks L)
            [length (registered L) := \<lparr>cb_fn = fn, cb_udata = udata, cb_level = level\<rparr>]\<rparr>)"
proof -
  from assms(1) obtain a b where "L_callbacks L = [a, b]"
    "cb_fn b \<noteq> NULL_fn \<longrightarrow> cb_fn a \<noteq> NULL_fn"
    by (rule two_slots)
  then show ?thesis
    using assms(2)
    by (cases "cb_fn a = NULL_fn"; cases "cb_fn b = NULL_fn")
       (simp_all add: log_add_callback_cases registered_def MAX_CALLBACKS_def)
qed

lemma add_callback_full:
  assumes "reachable m L" "length (registered L) = MAX_CALLBACKS"
  shows "log_add_callback fn udata level L = (- 1, L)"
proof -
  from assms(1) obtain a b where "L_callbacks L = [a, b]"
    "cb_fn b \<noteq> NULL_fn \<longrightarrow> cb_fn a \<noteq> NULL_fn"
    by (rule two_slots)
  then show ?thesis
    using assms(2)
    by (cases "cb_fn a = NULL_fn"; cases "cb_fn b = NULL_fn")
       (simp_all add: log_add_callback_cases registered_def MAX_CALLBACKS_def)
qed

lemma registered_le:
  assumes "reachable m L"
  shows "length (registered L) \<le> MAX_CALLBACKS"
  using registered_count [OF assms] by (simp add: MAX_CALLBACKS_def)

lemma add_callback_appends:
  assumes "reachable m L" "length (registered L) < MAX_CALLBACKS" "fn \<noteq> NULL_fn"
  shows "registered (snd (log_add_callback fn udata level L)) =
     registered L @ [\<lparr>cb_fn = fn, cb_udata = udata, cb_level = level\<rparr>]"
proof -
  from assms(1) obtain a b where "L_callbacks L = [a, b]"
    "cb_fn b \<noteq> NULL_fn \<longrightarrow> cb_fn a \<noteq> NULL_fn"
    by (rule two_slots)
  then show ?thesis
    using assms(2,3)
    by (cases "cb_fn a = NULL_fn"; cases "cb_fn b = NULL_fn")
       (simp_all add: log_add_callback_cases registered_def MAX_CALLBACKS_def)
qed

lemma exec_result:
  "result_of (exec m op L) =
     (case op of
        Add_callback fn udata level \<Rightarrow> Some (fst (log_add_callback fn udata level L))
      | Add_fp file level \<Rightarrow> Some (fst (log_add_callback file_callback_fn file level L))
      | Init \<Rightarrow>
          (if m then Some (fst (log_add_callback msvc_debug_callback_fn NULL (L_level L) L))
           else Some 0)
      | _ \<Rightarrow> None)"
  by (cases op) (simp_all add: result_of_def log_add_fp_def log_init_def split: prod.splits)

lemma failure_only_when_full:
  assumes "reachable m L" "result_of (exec m op L) = Some r" "r \<noteq> 0"
  shows "r = - 1 \<and> is_registration m op \<and> length (registered L) = MAX_CALLBACKS"
proof -
  have add: "fst (log_add_callback fn udata level L) \<noteq> 0 \<Longrightarrow>
     fst (log_add_callback fn udata level L) = - 1 \<and> length (registered L) = MAX_CALLBACKS"
    for fn udata level
    using add_callback_free [OF assms(1), of fn udata level] registered_le [OF assms(1)]
      add_callback_full [OF assms(1), of fn udata level]
    by (cases "length (registered L) < MAX_CALLBACKS") auto
  from assms(2) have "(case op of
        Add_callback fn udata level \<Rightarrow> Some (fst (log_add_callback fn udata level L))
      | Add_fp file level \<Rightarrow> Some (fst (log_add_callback file_callback_fn file level L))
      | Init \<Rightarrow>
          (if m then Some (fst (log_add_callback msvc_debug_callback_fn NULL (L_level L) L))
           else Some 0)
      | _ \<Rightarrow> None) = Some r"
    by (simp only: exec_result)
  then show ?thesis
    using assms(3) add
    by (cases op) (auto split: if_splits)
qed

text \<open>
  Claim C3. In a reachable state with fewer than \<open>MAX_CALLBACKS\<close> registered
  callbacks, \<open>log_add_callback\<close> returns 0 and writes the triple into the slot after
  the registered ones, which appends it to the registered callbacks when the function
  is not null. With \<open>MAX_CALLBACKS\<close> registered callbacks it returns -1. No call of
  the interface returns a value other than 0 except a registration in a state whose
  slots are all occupied, which returns -1.
\<close>

theorem add_callback_capacity:
  assumes "reachable m L"
  shows "(length (registered L) < MAX_CALLBACKS \<longrightarrow>
            log_add_callback fn udata level L =
              (0, L\<lparr>L_callbacks := (L_callbacks L)
                 [length (registered L) := \<lparr>cb_fn = fn, cb_udata = udata, cb_level = level\<rparr>]\<rparr>) \<and>
            (fn \<noteq> NULL_fn \<longrightarrow>
               registered (snd (log_add_callback fn udata level L)) =
               registered L @ [\<lparr>cb_fn = fn, cb_udata = udata, cb_level = level\<rparr>])) \<and>
         (length (registered L) = MAX_CALLBACKS \<longrightarrow>
            log_add_callback fn udata level L = (- 1, L)) \<and>
         (\<forall>op r. result_of (exec m op L) = Some r \<and> r \<noteq> 0 \<longrightarrow>
            r = - 1 \<and> is_registration m op \<and> length (registered L) = MAX_CALLBACKS)"
  using add_callback_free [OF assms] add_callback_full [OF assms]
    add_callback_appends [OF assms] failure_only_when_full [OF assms]
  by blast

theorem add_callback_capacity_witness:
  "reachable False L_one \<and> length (registered L_one) < MAX_CALLBACKS \<and>
   file_callback_fn \<noteq> NULL_fn \<and>
   log_add_callback file_callback_fn (Addr 1) 2 L_one = (0, L_two) \<and>
   registered L_two =
     registered L_one @ [\<lparr>cb_fn = file_callback_fn, cb_udata = Addr 1, cb_level = 2\<rparr>] \<and>
   reachable False L_two \<and> length (registered L_two) = MAX_CALLBACKS \<and>
   log_add_callback (user_fn 5) NULL 0 L_two = (- 1, L_two) \<and>
   result_of (exec False (Add_fp (Addr 2) 0) L_two) = Some (- 1) \<and>
   is_registration False (Add_fp (Addr 2) 0)"
proof -
  have r1: "reachable False L_one"
    unfolding L_one_def by (intro reachable.step reachable.start)
  have r2: "reachable False L_two"
    unfolding L_two_def by (intro reachable.step r1)
  have n1: "length (registered L_one) < MAX_CALLBACKS"
    by (simp add: registered_def L_one_eq empty_slot_def MAX_CALLBACKS_def)
  have n2: "length (registered L_two) = MAX_CALLBACKS"
    by (simp add: registered_def L_two_eq MAX_CALLBACKS_def)
  have fn: "file_callback_fn \<noteq> NULL_fn"
    by simp
  have two: "snd (log_add_callback file_callback_fn (Addr 1) 2 L_one) = L_two"
    by (simp add: L_two_def state_of_def log_add_fp_def split: prod.splits)
  note c1 = add_callback_capacity [OF r1, of file_callback_fn "Addr 1" 2]
  note c2 = add_callback_capacity [OF r2, of "user_fn 5" NULL 0]
  from c1 n1 have a: "log_add_callback file_callback_fn (Addr 1) 2 L_one =
      (0, L_one\<lparr>L_callbacks := (L_callbacks L_one)
         [length (registered L_one) :=
            \<lparr>cb_fn = file_callback_fn, cb_udata = Addr 1, cb_level = 2\<rparr>]\<rparr>)"
    by blast
  with two have a': "log_add_callback file_callback_fn (Addr 1) 2 L_one = (0, L_two)"
    by simp
  from c1 n1 fn have "registered (snd (log_add_callback file_callback_fn (Addr 1) 2 L_one)) =
     registered L_one @ [\<lparr>cb_fn = file_callback_fn, cb_udata = Addr 1, cb_level = 2\<rparr>]"
    by blast
  then have b: "registered L_two =
     registered L_one @ [\<lparr>cb_fn = file_callback_fn, cb_udata = Addr 1, cb_level = 2\<rparr>]"
    by (simp only: two)
  from c2 n2 have c: "log_add_callback (user_fn 5) NULL 0 L_two = (- 1, L_two)"
    by blast
  have res: "result_of (exec False (Add_fp (Addr 2) 0) L_two) = Some (- 1)"
    by (simp add: result_of_def log_add_fp_def log_add_callback_cases L_two_eq)
  with c2 have d: "is_registration False (Add_fp (Addr 2) 0)"
    by simp
  from r1 r2 n1 n2 fn a' b c res d show ?thesis
    by simp
qed

subsection \<open>Quiet mode\<close>

lemma callbacks_from_setters:
  "callbacks_from i now level ev (L\<lparr>L_quiet := q\<rparr>) = callbacks_from i now level ev L"
proof (induction i now level ev L rule: callbacks_from.induct)
  case (1 i now level ev L)
  show ?case
  proof (cases "i < MAX_CALLBACKS \<and> cb_fn (L_callbacks L ! i) \<noteq> NULL_fn")
    case False
    then show ?thesis by (simp add: callbacks_from_stop)
  next
    case True
    show ?thesis
    proof (cases "cb_level (L_callbacks L ! i) \<le> level")
      case met: True
      show ?thesis
        using True met "1.IH"(1) [OF True refl met refl]
        by (simp add: callbacks_from_call)
    next
      case unmet: False
      show ?thesis
        using True unmet "1.IH"(2) [OF True refl unmet]
        by (simp add: callbacks_from_skip)
    qed
  qed
qed

lemma callback_calls_of_log_log:
  "filter is_callback_call (log_log now level file line fmt ap L) =
     callbacks_from 0 now level
       \<lparr>ev_ap = ap, ev_fmt = fmt, ev_file = file, ev_time = None,
        ev_udata = NULL, ev_line = line, ev_level = level\<rparr> L"
proof -
  have "filter (\<lambda>c. \<not> is_stdout_call c) xs = xs" if "filter is_stdout_call xs = []"
    for xs :: "call list"
    using that by (induction xs) (auto split: if_splits)
  then show ?thesis
    unfolding is_callback_call_def
    by (simp add: log_log_split callbacks_from_no_stdout)
qed

text \<open>
  Claim C4. After \<open>log_set_quiet\<close> with true, no log call at any level runs the
  console sink. The registered callbacks that a log call runs are the same whatever
  value \<open>log_set_quiet\<close> has stored.
\<close>

theorem quiet_suppresses_console_only:
  "filter is_stdout_call (log_log now level file line fmt ap (log_set_quiet True L)) = [] \<and>
   filter is_callback_call (log_log now level file line fmt ap (log_set_quiet enable L)) =
   filter is_callback_call (log_log now level file line fmt ap L)"
  by (simp add: stdout_calls_of_log_log callback_calls_of_log_log log_set_quiet_def
        callbacks_from_setters)

theorem quiet_suppresses_console_only_witness:
  "filter is_stdout_call
     (log_log tm_example 5 ''main.c'' 10 ''hello'' [] (log_set_quiet True L_two)) = [] \<and>
   filter is_callback_call
     (log_log tm_example 5 ''main.c'' 10 ''hello'' [] (log_set_quiet True L_two)) =
   filter is_callback_call (log_log tm_example 5 ''main.c'' 10 ''hello'' [] L_two)"
  using quiet_suppresses_console_only [of tm_example 5 "''main.c''" 10 "''hello''" "[]" L_two True]
  by simp

subsection \<open>The error-code table\<close>

text \<open>
  Claim C5. \<open>ErrorCodeToString\<close> returns the literal of each of the four codes, and
  for a code from 0 to 3 the index is inside the table.
\<close>

theorem ErrorCodeToString_literals:
  "ErrorCodeToString 0 = Some ''CU_SUCCESS'' \<and>
   ErrorCodeToString 1 = Some ''CU_FAILURE'' \<and>
   ErrorCodeToString 2 = Some ''CU_LOG_FILE_ERROR'' \<and>
   ErrorCodeToString 3 = Some ''CU_FILE_CLOSE_ERROR'' \<and>
   (\<forall>code. 0 \<le> code \<and> code \<le> 3 \<longrightarrow>
      nat code < length error_code_strings \<and>
      ErrorCodeToString code = Some (error_code_strings ! nat code))"
  by (auto simp: ErrorCodeToString_def table_at_def error_code_strings_def)

theorem ErrorCodeToString_literals_witness:
  "(0::int) \<le> 2 \<and> (2::int) \<le> 3 \<and> nat 2 < length error_code_strings \<and>
   ErrorCodeToString 2 = Some ''CU_LOG_FILE_ERROR''"
proof -
  from ErrorCodeToString_literals
  have "(0::int) \<le> 2 \<and> (2::int) \<le> 3 \<longrightarrow>
      nat 2 < length error_code_strings \<and>
      ErrorCodeToString 2 = Some (error_code_strings ! nat 2)"
    by blast
  then show ?thesis
    by (simp add: error_code_strings_def)
qed

subsection \<open>Failed registration, and slots that stay\<close>

lemma exec_keeps_slot:
  assumes "occupied L i"
  shows "L_callbacks (state_of (exec m op L)) ! i = L_callbacks L ! i"
proof -
  have add: "L_callbacks (snd (log_add_callback fn udata level L)) ! i = L_callbacks L ! i"
    for fn udata level
  proof -
    have "j \<noteq> i" if "cb_fn (L_callbacks L ! j) = NULL_fn" for j
      using that assms by (auto simp: occupied_def)
    then show ?thesis
      by (simp add: log_add_callback_cases)
  qed
  show ?thesis
    by (cases op)
       (simp_all add: state_of_def log_set_level_def log_set_quiet_def log_add_fp_def
          log_init_def add split: prod.splits, (metis add snd_conv)+)
qed

text \<open>
  Claim C8. When \<open>log_add_callback\<close> returns -1, the logger state it leaves is the
  state it was called in.
\<close>

theorem add_callback_failure_atomic:
  "fst (log_add_callback fn udata level L) = - 1 \<longrightarrow>
   snd (log_add_callback fn udata level L) = L"
  by (simp add: log_add_callback_cases)

theorem add_callback_failure_atomic_witness:
  "fst (log_add_callback (user_fn 9) NULL 0 L_two) = - 1 \<and>
   snd (log_add_callback (user_fn 9) NULL 0 L_two) = L_two"
proof -
  have "fst (log_add_callback (user_fn 9) NULL 0 L_two) = - 1"
    by (simp add: log_add_callback_cases L_two_eq)
  with add_callback_failure_atomic [of "user_fn 9" NULL 0 L_two] show ?thesis
    by simp
qed

subsection \<open>The lines written by the two sinks\<close>

lemma dec_nat_digit: "n < 10 \<Longrightarrow> dec_nat n = [digit_char n]"
  by (subst dec_nat.simps) simp

lemma dec_nat_two:
  "10 \<le> n \<Longrightarrow> n < 100 \<Longrightarrow> dec_nat n = [digit_char (n div 10), digit_char (n mod 10)]"
  by (subst dec_nat.simps) (simp add: dec_nat_digit)

lemma dec_nat_three: "100 \<le> n \<Longrightarrow> n < 1000 \<Longrightarrow>
  dec_nat n = [digit_char (n div 100), digit_char (n div 10 mod 10), digit_char (n mod 10)]"
  by (subst dec_nat.simps) (simp add: dec_nat_two div_mult2_eq [symmetric])

lemma dec_nat_four: "1000 \<le> n \<Longrightarrow> n < 10000 \<Longrightarrow>
  dec_nat n = [digit_char (n div 1000), digit_char (n div 100 mod 10),
     digit_char (n div 10 mod 10), digit_char (n mod 10)]"
  by (subst dec_nat.simps) (simp add: dec_nat_three div_mult2_eq [symmetric])

lemma pad2_two_digits: "0 \<le> i \<Longrightarrow> i < 100 \<Longrightarrow> pad2 i = two_digits i"
proof -
  assume a: "0 \<le> i" "i < 100"
  have z: "digit_char 0 = CHR ''0''" by (simp add: digit_char_def)
  show ?thesis
  proof (cases "nat i < 10")
    case True
    then show ?thesis using a
      by (simp add: pad2_def dec_int_def dec_nat_digit two_digits_def z)
  next
    case False
    then have "10 \<le> nat i" "nat i < 100" using a by simp_all
    then show ?thesis using a
      by (simp add: pad2_def dec_int_def dec_nat_two two_digits_def)
  qed
qed

lemma year_four_digits: "1000 \<le> i \<Longrightarrow> i \<le> 9999 \<Longrightarrow> dec_int i = four_digits i"
  by (simp add: dec_int_def four_digits_def dec_nat_four)

lemma strftime_console:
  assumes "valid_tm t"
  shows "strftime 16 ''%H:%M:%S'' t = HH_MM_SS t"
  using assms
  by (simp add: strftime_def strftime_conv_def HH_MM_SS_def valid_tm_def pad2_two_digits
      two_digits_def Let_def)

lemma strftime_file:
  assumes "valid_tm t"
  shows "strftime 64 ''%Y-%m-%d %H:%M:%S'' t = YYYY_MM_DD t @ '' '' @ HH_MM_SS t"
  using assms
  by (simp add: strftime_def strftime_conv_def HH_MM_SS_def YYYY_MM_DD_def valid_tm_def
      pad2_two_digits year_four_digits two_digits_def four_digits_def Let_def)


lemma stdout_callback_plain:
  assumes "valid_tm now" "table_at level_strings level = Some tag"
  shows "stdout_callback False vformat (event_for now level file line fmt ap d) w =
     Some (flushed_with d (console_line now tag file line (vformat fmt ap)) w)"
  using assms
  by (simp add: stdout_callback_def event_for_def strftime_console Let_def fprintf_def
      fflush_def flushed_with_def console_line_def)

lemma stdout_callback_color:
  assumes "valid_tm now" "table_at level_strings level = Some tag"
    "table_at level_colors level = Some color"
  shows "stdout_callback True vformat (event_for now level file line fmt ap d) w =
     Some (flushed_with d (console_line_color now color tag file line (vformat fmt ap)) w)"
  using assms
  by (simp add: stdout_callback_def event_for_def strftime_console Let_def fprintf_def
      fflush_def flushed_with_def console_line_color_def)

lemma file_callback_line:
  assumes "valid_tm now" "table_at level_strings level = Some tag"
  shows "file_callback vformat (event_for now level file line fmt ap d) w =
     Some (FileWriteStrf d (file_line now tag file line (vformat fmt ap)) w)"
  using assms
  by (simp add: file_callback_def event_for_def strftime_file Let_def FileWriteStrf_def
      file_line_def)

lemma colors_like_strings:
  "table_at level_strings level = Some tag \<Longrightarrow> \<exists>color. table_at level_colors level = Some color"
  by (simp add: table_at_def level_strings_def level_colors_def split: if_splits)

text \<open>
  Claim C1. The console sink runs in a log call exactly when the quiet flag is false
  and the level of the call is at least the global level, and then once, on the
  standard error stream, with the arguments of the call and the time read for it. For
  a level that has a level string, the sink then writes and flushes the console line.
  In particular, for levels \<open>L1 < L2\<close>, a call at level \<open>L1\<close> runs no console sink once
  the global level has been set to \<open>L2\<close>.
\<close>

theorem console_sink_emits_iff:
  "filter is_stdout_call (log_log now level file line fmt ap L) =
     (if \<not> L_quiet L \<and> L_level L \<le> level
      then [Stdout_call (event_for now level file line fmt ap Stderr)] else []) \<and>
   (valid_tm now \<and> log_level_string level = Some tag \<longrightarrow>
      stdout_callback False vformat (event_for now level file line fmt ap Stderr) w =
        Some (flushed_with Stderr (console_line now tag file line (vformat fmt ap)) w) \<and>
      (\<exists>color. table_at level_colors level = Some color \<and>
         stdout_callback True vformat (event_for now level file line fmt ap Stderr) w =
           Some (flushed_with Stderr
             (console_line_color now color tag file line (vformat fmt ap)) w))) \<and>
   (\<forall>L1 L2. L1 < L2 \<longrightarrow>
      filter is_stdout_call (log_log now L1 file line fmt ap (log_set_level L2 L)) = [])"
proof (intro conjI allI impI)
  show "filter is_stdout_call (log_log now level file line fmt ap L) =
     (if \<not> L_quiet L \<and> L_level L \<le> level
      then [Stdout_call (event_for now level file line fmt ap Stderr)] else [])"
    by (rule stdout_calls_of_log_log)
next
  assume "valid_tm now \<and> log_level_string level = Some tag"
  then have t: "valid_tm now" and tag: "table_at level_strings level = Some tag"
    by (simp_all add: log_level_string_def)
  show "stdout_callback False vformat (event_for now level file line fmt ap Stderr) w =
        Some (flushed_with Stderr (console_line now tag file line (vformat fmt ap)) w)"
    using t tag by (rule stdout_callback_plain)
  from colors_like_strings [OF tag] obtain color where
    color: "table_at level_colors level = Some color" ..
  show "\<exists>color. table_at level_colors level = Some color \<and>
         stdout_callback True vformat (event_for now level file line fmt ap Stderr) w =
           Some (flushed_with Stderr
             (console_line_color now color tag file line (vformat fmt ap)) w)"
    using color stdout_callback_color [OF t tag color] by blast
next
  fix L1 L2 :: int
  assume "L1 < L2"
  then show "filter is_stdout_call
      (log_log now L1 file line fmt ap (log_set_level L2 L)) = []"
    by (simp add: stdout_calls_of_log_log log_set_level_def)
qed

theorem console_sink_emits_iff_witness:
  "filter is_stdout_call (log_log tm_example 3 ''main.c'' 10 ''hello'' [] L_two) =
     [Stdout_call (event_for tm_example 3 ''main.c'' 10 ''hello'' [] Stderr)] \<and>
   valid_tm tm_example \<and> log_level_string 3 = Some ''WARN'' \<and>
   stdout_callback False (\<lambda>fmt ap. fmt)
       (event_for tm_example 3 ''main.c'' 10 ''hello'' [] Stderr) w_empty =
     Some (flushed_with Stderr (''13:04:05 WARN   main.c:10: hello'' @ [CHR 0x0A]) w_empty) \<and>
   (2::int) < 4 \<and>
   filter is_stdout_call
     (log_log tm_example 2 ''main.c'' 10 ''hello'' [] (log_set_level 4 L_two)) = []"
proof -
  note c = console_sink_emits_iff [of tm_example 3 "''main.c''" 10 "''hello''" "[]" L_two
      "''WARN''" "\<lambda>fmt ap. fmt" w_empty]
  have gate: "\<not> L_quiet L_two \<and> L_level L_two \<le> 3"
    by (simp add: L_two_eq)
  from c have "filter is_stdout_call (log_log tm_example 3 ''main.c'' 10 ''hello'' [] L_two) =
     (if \<not> L_quiet L_two \<and> L_level L_two \<le> 3
      then [Stdout_call (event_for tm_example 3 ''main.c'' 10 ''hello'' [] Stderr)] else [])"
    by blast
  with gate have shown: "filter is_stdout_call
      (log_log tm_example 3 ''main.c'' 10 ''hello'' [] L_two) =
     [Stdout_call (event_for tm_example 3 ''main.c'' 10 ''hello'' [] Stderr)]"
    by simp
  have t: "valid_tm tm_example"
    by (simp add: valid_tm_def tm_example_def)
  have tag: "log_level_string 3 = Some ''WARN''"
    by (simp add: log_level_string_def table_at_def level_strings_def)
  have cl: "console_line tm_example ''WARN'' ''main.c'' 10 ''hello'' =
     ''13:04:05 WARN   main.c:10: hello'' @ [CHR 0x0A]"
    by code_simp
  from c t tag have "stdout_callback False (\<lambda>fmt ap. fmt)
       (event_for tm_example 3 ''main.c'' 10 ''hello'' [] Stderr) w_empty =
     Some (flushed_with Stderr (console_line tm_example ''WARN'' ''main.c'' 10 ''hello'') w_empty)"
    by blast
  then have out: "stdout_callback False (\<lambda>fmt ap. fmt)
       (event_for tm_example 3 ''main.c'' 10 ''hello'' [] Stderr) w_empty =
     Some (flushed_with Stderr (''13:04:05 WARN   main.c:10: hello'' @ [CHR 0x0A]) w_empty)"
    by (simp only: cl)
  have lt: "(2::int) < 4" by simp
  with c have none: "filter is_stdout_call
     (log_log tm_example 2 ''main.c'' 10 ''hello'' [] (log_set_level 4 L_two)) = []"
    by blast
  from shown t tag out lt none show ?thesis
    by blast
qed

lemma file_callback_unflushed:
  assumes "valid_tm now" "table_at level_strings level = Some tag"
    and "w' = FileWriteStrf d (file_line now tag file line (vformat fmt ap)) w"
  shows "file_callback vformat (event_for now level file line fmt ap d) w = Some w' \<and>
         pending (w' d) = pending (w d) @ file_line now tag file line (vformat fmt ap) \<and>
         delivered (w' d) = delivered (w d)"
  using assms(3) file_callback_line [OF assms(1,2)]
  by (simp add: FileWriteStrf_def)


subsection \<open>The registered callbacks only grow\<close>

lemma exec_keeps_occupied:
  assumes "occupied L i"
  shows "occupied (state_of (exec m op L)) i"
  using assms exec_keeps_slot [OF assms, of m op] by (simp add: occupied_def)

lemma exec_registered_prefix:
  assumes "reachable m L"
  shows "take (length (registered L)) (registered (state_of (exec m op L))) = registered L"
proof -
  let ?L' = "state_of (exec m op L)"
  from assms obtain a b where ab: "L_callbacks L = [a, b]"
    "cb_fn b \<noteq> NULL_fn \<longrightarrow> cb_fn a \<noteq> NULL_fn"
    by (rule two_slots)
  have "reachable m ?L'"
    using assms by (rule reachable.step)
  then obtain a' b' where ab': "L_callbacks ?L' = [a', b']"
    "cb_fn b' \<noteq> NULL_fn \<longrightarrow> cb_fn a' \<noteq> NULL_fn"
    by (rule two_slots)
  have a: "a' = a" if "cb_fn a \<noteq> NULL_fn"
    using exec_keeps_slot [of L 0 m op] that ab(1) ab'(1) by (simp add: occupied_def)
  have b: "b' = b" if "cb_fn b \<noteq> NULL_fn"
    using exec_keeps_slot [of L "Suc 0" m op] that ab(1) ab'(1) by (simp add: occupied_def)
  show ?thesis
    using ab ab' a b
    by (cases "cb_fn a = NULL_fn"; cases "cb_fn b = NULL_fn")
       (simp_all add: registered_def)
qed

text \<open>
  Claim C7. In a reachable state, whatever call of the interface comes next, an
  occupied slot holds the same triple afterwards and is still occupied, and the
  registered callbacks of the state before are the first registered callbacks of the
  state after.
\<close>

theorem registration_append_only:
  assumes "reachable m L" "i < MAX_CALLBACKS" "occupied L i"
  shows "L_callbacks (state_of (exec m op L)) ! i = L_callbacks L ! i \<and>
         occupied (state_of (exec m op L)) i \<and>
         take (length (registered L)) (registered (state_of (exec m op L))) = registered L"
  using exec_keeps_slot [OF assms(3)] exec_keeps_occupied [OF assms(3)]
    exec_registered_prefix [OF assms(1)]
  by simp

theorem registration_append_only_witness:
  "reachable False L_one \<and> 0 < MAX_CALLBACKS \<and> occupied L_one 0 \<and>
   L_callbacks (state_of (exec False (Add_fp (Addr 1) 2) L_one)) ! 0 =
     \<lparr>cb_fn = user_fn 0, cb_udata = Addr 7, cb_level = 4\<rparr> \<and>
   occupied (state_of (exec False (Add_fp (Addr 1) 2) L_one)) 0 \<and>
   take (length (registered L_one))
     (registered (state_of (exec False (Add_fp (Addr 1) 2) L_one))) = registered L_one"
proof -
  have r: "reachable False L_one"
    unfolding L_one_def by (intro reachable.step reachable.start)
  have i: "0 < MAX_CALLBACKS"
    by (simp add: MAX_CALLBACKS_def)
  have occ: "occupied L_one 0"
    by (simp add: occupied_def L_one_eq)
  have slot: "L_callbacks L_one ! 0 = \<lparr>cb_fn = user_fn 0, cb_udata = Addr 7, cb_level = 4\<rparr>"
    by (simp add: L_one_eq)
  from registration_append_only [OF r i occ, of "Add_fp (Addr 1) 2"] r i occ slot
  show ?thesis by simp
qed

subsection \<open>Occupied slots form a prefix\<close>

lemma takeWhile_registered:
  assumes "reachable m L"
  shows "takeWhile (\<lambda>cb. cb_fn cb \<noteq> NULL_fn) (L_callbacks L) = registered L"
proof -
  from assms obtain a b where "L_callbacks L = [a, b]"
    "cb_fn b \<noteq> NULL_fn \<longrightarrow> cb_fn a \<noteq> NULL_fn"
    by (rule two_slots)
  then show ?thesis
    by (cases "cb_fn a = NULL_fn"; cases "cb_fn b = NULL_fn") (simp_all add: registered_def)
qed

lemma occupied_prefix:
  assumes "reachable m L" "i < j" "j < MAX_CALLBACKS" "occupied L j"
  shows "occupied L i"
proof -
  from assms(2,3) have "i = 0" "j = Suc 0"
    by (simp_all add: MAX_CALLBACKS_def)
  with reachable_inv [OF assms(1)] assms(4) show ?thesis
    by simp
qed

text \<open>
  Claim C10. In a reachable state every slot before an occupied slot is occupied:
  the slots up to the first empty one are all the registered callbacks. So the
  callbacks a log call runs, stopping at the first empty slot, are those of all the
  occupied slots whose threshold the level reaches, in slot order.
\<close>

theorem occupied_slots_prefix:
  assumes "reachable m L"
  shows "(\<forall>i j. i < j \<and> j < MAX_CALLBACKS \<and> occupied L j \<longrightarrow> occupied L i) \<and>
         takeWhile (\<lambda>cb. cb_fn cb \<noteq> NULL_fn) (L_callbacks L) = registered L \<and>
         filter is_callback_call (log_log now level file line fmt ap L) =
           map (slot_call now level file line fmt ap L)
             (filter (slot_fires L level) [0..<MAX_CALLBACKS])"
proof (intro conjI allI impI)
  fix i j
  assume "i < j \<and> j < MAX_CALLBACKS \<and> occupied L j"
  then show "occupied L i"
    using occupied_prefix [OF assms] by blast
next
  show "takeWhile (\<lambda>cb. cb_fn cb \<noteq> NULL_fn) (L_callbacks L) = registered L"
    using assms by (rule takeWhile_registered)
next
  show "filter is_callback_call (log_log now level file line fmt ap L) =
           map (slot_call now level file line fmt ap L)
             (filter (slot_fires L level) [0..<MAX_CALLBACKS])"
    using reachable_inv [OF assms]
    by (simp add: callback_calls_of_log_log callbacks_from_0_prefix)
qed

theorem occupied_slots_prefix_witness:
  "reachable False L_two \<and> (0::nat) < 1 \<and> 1 < MAX_CALLBACKS \<and> occupied L_two 1 \<and>
   occupied L_two 0 \<and>
   takeWhile (\<lambda>cb. cb_fn cb \<noteq> NULL_fn) (L_callbacks L_two) = registered L_two \<and>
   filter is_callback_call (log_log tm_example 3 ''main.c'' 10 ''hello'' [] L_two) =
     [Callback_call 1 file_callback_fn
        (event_for tm_example 3 ''main.c'' 10 ''hello'' [] (Addr 1))]"
proof -
  have r: "reachable False L_two"
    unfolding L_two_def L_one_def by (intro reachable.step reachable.start)
  have hyp: "(0::nat) < 1 \<and> 1 < MAX_CALLBACKS \<and> occupied L_two 1"
    by (simp add: MAX_CALLBACKS_def occupied_def L_two_eq)
  note c = occupied_slots_prefix [OF r, of tm_example 3 "''main.c''" 10 "''hello''" "[]"]
  from c hyp have a: "occupied L_two 0"
    by blast
  from c have b: "takeWhile (\<lambda>cb. cb_fn cb \<noteq> NULL_fn) (L_callbacks L_two) = registered L_two"
    by blast
  have upt: "[0..<MAX_CALLBACKS] = [0, Suc 0]"
    by (simp add: MAX_CALLBACKS_def upt_rec)
  from c have "filter is_callback_call (log_log tm_example 3 ''main.c'' 10 ''hello'' [] L_two) =
           map (slot_call tm_example 3 ''main.c'' 10 ''hello'' [] L_two)
             (filter (slot_fires L_two 3) [0..<MAX_CALLBACKS])"
    by blast
  then have d: "filter is_callback_call (log_log tm_example 3 ''main.c'' 10 ''hello'' [] L_two) =
     [Callback_call 1 file_callback_fn
        (event_for tm_example 3 ''main.c'' 10 ''hello'' [] (Addr 1))]"
    by (simp add: upt slot_fires_def occupied_def slot_call_def L_two_eq)
  from r hyp a b d show ?thesis by simp
qed

subsection \<open>Registration of a null function\<close>

lemma add_null_keeps_dispatch:
  assumes "reachable m L" "length (registered L) < MAX_CALLBACKS"
  shows "callbacks_from 0 now level ev
           (L\<lparr>L_callbacks := (L_callbacks L)
              [length (registered L) := \<lparr>cb_fn = NULL_fn, cb_udata = udata, cb_level = lv\<rparr>]\<rparr>) =
         callbacks_from 0 now level ev L"
proof -
  from assms(1) obtain a b where ab: "L_callbacks L = [a, b]"
    "cb_fn b \<noteq> NULL_fn \<longrightarrow> cb_fn a \<noteq> NULL_fn"
    by (rule two_slots)
  have m0: "0 < MAX_CALLBACKS" by (simp add: MAX_CALLBACKS_def)
  show ?thesis
  proof (cases "cb_fn a = NULL_fn")
    case True
    with ab show ?thesis
      by (simp add: registered_def callbacks_from_stop)
  next
    case False
    with ab assms(2) have b: "cb_fn b = NULL_fn"
      by (auto simp: registered_def MAX_CALLBACKS_def split: if_splits)
    with ab False show ?thesis
      by (cases "cb_level a \<le> level")
         (simp_all add: registered_def callbacks_from_call callbacks_from_skip m0
            callbacks_from_last slot_fires_def occupied_def)
  qed
qed

text \<open>
  With a null function and both slots occupied, \<open>log_add_callback\<close> does not return 0:
  it returns -1, as for any other function.
\<close>

theorem add_null_callback_full_counterexample:
  "reachable False L_two \<and> length (registered L_two) = MAX_CALLBACKS \<and>
   log_add_callback NULL_fn NULL 0 L_two = (- 1, L_two) \<and>
   fst (log_add_callback NULL_fn NULL 0 L_two) \<noteq> 0"
proof -
  have r: "reachable False L_two"
    unfolding L_two_def L_one_def by (intro reachable.step reachable.start)
  show ?thesis
    using r by (simp add: L_two_eq log_add_callback_cases registered_def MAX_CALLBACKS_def)
qed

text \<open>
  Claim C9, amended. In a reachable state with fewer than \<open>MAX_CALLBACKS\<close> registered
  callbacks, \<open>log_add_callback\<close> with a null function returns 0 and writes the triple
  into the first empty slot \<open>n\<close>; the slot is still not occupied and the registered
  callbacks are the same; the next \<open>log_add_callback\<close> returns 0 and writes into the
  same slot; every log call runs what it ran before, and nothing for slot \<open>n\<close>.
\<close>

theorem add_null_callback_registers_nothing:
  assumes "reachable m L" "length (registered L) < MAX_CALLBACKS"
    and "L' = snd (log_add_callback NULL_fn udata level L)"
    and "n = length (registered L)"
  shows "fst (log_add_callback NULL_fn udata level L) = 0 \<and>
         L' = L\<lparr>L_callbacks := (L_callbacks L)
                 [n := \<lparr>cb_fn = NULL_fn, cb_udata = udata, cb_level = level\<rparr>]\<rparr> \<and>
         \<not> occupied L' n \<and>
         registered L' = registered L \<and>
         log_add_callback fn2 udata2 level2 L' =
           (0, L'\<lparr>L_callbacks := (L_callbacks L')
                  [n := \<lparr>cb_fn = fn2, cb_udata = udata2, cb_level = level2\<rparr>]\<rparr>) \<and>
         log_log now lv file line fmt ap L' = log_log now lv file line fmt ap L \<and>
         filter (is_call_of_slot n) (log_log now lv file line fmt ap L') = []"
proof -
  from assms(1) obtain a b where ab: "L_callbacks L = [a, b]"
    "cb_fn b \<noteq> NULL_fn \<longrightarrow> cb_fn a \<noteq> NULL_fn"
    by (rule two_slots)
  have L': "L' = L\<lparr>L_callbacks := (L_callbacks L)
                 [n := \<lparr>cb_fn = NULL_fn, cb_udata = udata, cb_level = level\<rparr>]\<rparr>"
    using assms by (simp add: add_callback_free)
  have r': "reachable m L'"
    using reachable.step [OF assms(1), of "Add_callback NULL_fn udata level"] assms(3)
    by (simp add: state_of_def split: prod.splits)
  have reg: "registered L' = registered L"
    using ab assms(2,4)
    by (cases "cb_fn a = NULL_fn"; cases "cb_fn b = NULL_fn")
       (simp_all add: L' registered_def MAX_CALLBACKS_def)
  have free: "\<not> occupied L' n"
    using ab assms(2,4)
    by (cases "cb_fn a = NULL_fn"; cases "cb_fn b = NULL_fn")
       (simp_all add: L' registered_def MAX_CALLBACKS_def occupied_def)
  have again: "log_add_callback fn2 udata2 level2 L' =
           (0, L'\<lparr>L_callbacks := (L_callbacks L')
                  [n := \<lparr>cb_fn = fn2, cb_udata = udata2, cb_level = level2\<rparr>]\<rparr>)"
    using add_callback_free [OF r', of fn2 udata2 level2] assms(2,4) reg by simp
  have same: "log_log now lv file line fmt ap L' = log_log now lv file line fmt ap L"
    using add_null_keeps_dispatch [OF assms(1,2)] assms(4)
    by (simp add: log_log_split L')
  have none: "filter (is_call_of_slot n) (log_log now lv file line fmt ap L') = []"
  proof -
    have upt: "[0..<MAX_CALLBACKS] = [0, Suc 0]"
      by (simp add: MAX_CALLBACKS_def upt_rec)
    from assms(2,4) have "n < 2"
      by (simp add: MAX_CALLBACKS_def)
    then have "n = 0 \<or> n = Suc 0"
      by arith
    then show ?thesis
      using free
      by (auto simp: log_log_calls [OF r'] upt slot_fires_def slot_call_def)
  qed
  from assms L' free reg again same none show ?thesis
    by (simp add: add_callback_free)
qed

theorem add_null_callback_registers_nothing_witness:
  "reachable False L_one \<and> length (registered L_one) < MAX_CALLBACKS \<and>
   length (registered L_one) = 1 \<and>
   fst (log_add_callback NULL_fn (Addr 3) 1 L_one) = 0 \<and>
   \<not> occupied (snd (log_add_callback NULL_fn (Addr 3) 1 L_one)) 1 \<and>
   registered (snd (log_add_callback NULL_fn (Addr 3) 1 L_one)) = registered L_one \<and>
   log_add_callback file_callback_fn (Addr 1) 2
       (snd (log_add_callback NULL_fn (Addr 3) 1 L_one)) = (0, L_two) \<and>
   log_log tm_example 5 ''main.c'' 10 ''hello'' []
       (snd (log_add_callback NULL_fn (Addr 3) 1 L_one)) =
     log_log tm_example 5 ''main.c'' 10 ''hello'' [] L_one"
proof -
  have r: "reachable False L_one"
    unfolding L_one_def by (intro reachable.step reachable.start)
  have n: "length (registered L_one) = 1"
    by (simp add: registered_def L_one_eq empty_slot_def)
  have lt: "length (registered L_one) < MAX_CALLBACKS"
    by (simp add: n MAX_CALLBACKS_def)
  note c = add_null_callback_registers_nothing [OF r lt refl refl,
      of "Addr 3" 1 file_callback_fn "Addr 1" 2 tm_example 5 "''main.c''" 10 "''hello''" "[]",
      unfolded n]
  let ?L' = "snd (log_add_callback NULL_fn (Addr 3) 1 L_one)"
  from c have L': "?L' = L_one\<lparr>L_callbacks := (L_callbacks L_one)
       [1 := \<lparr>cb_fn = NULL_fn, cb_udata = Addr 3, cb_level = 1\<rparr>]\<rparr>"
    by blast
  from c have again: "log_add_callback file_callback_fn (Addr 1) 2 ?L' =
      (0, ?L'\<lparr>L_callbacks := (L_callbacks ?L')
         [1 := \<lparr>cb_fn = file_callback_fn, cb_udata = Addr 1, cb_level = 2\<rparr>]\<rparr>)"
    by blast
  have "?L'\<lparr>L_callbacks := (L_callbacks ?L')
         [1 := \<lparr>cb_fn = file_callback_fn, cb_udata = Addr 1, cb_level = 2\<rparr>]\<rparr> = L_two"
    unfolding L' by (simp add: L_one_eq L_two_eq)
  with again have again': "log_add_callback file_callback_fn (Addr 1) 2 ?L' = (0, L_two)"
    by simp
  from c have rest: "fst (log_add_callback NULL_fn (Addr 3) 1 L_one) = 0 \<and>
      \<not> occupied ?L' 1 \<and> registered ?L' = registered L_one \<and>
      log_log tm_example 5 ''main.c'' 10 ''hello'' [] ?L' =
      log_log tm_example 5 ''main.c'' 10 ''hello'' [] L_one"
    by blast
  from rest r lt n again' show ?thesis
    by blast
qed

end
